theory Spec2Isabelle
  imports Main "HOL-Library.Word"
begin

section \<open>The EVM logging instructions of the Frontier fork\<close>

text \<open>
  A shallow embedding of \<^verbatim>\<open>src/ethereum/frontier/vm/instructions/log.py\<close>: the
  shared executor \<^verbatim>\<open>log_n\<close> and its five specialisations \<^verbatim>\<open>log0\<close> .. \<^verbatim>\<open>log4\<close>.

  Python raises exceptions and mutates the frame in place, so a call that raises leaves
  behind whatever it had already written. The model keeps both: every operation returns
  a pair of a result (\<open>Inl\<close> the exception raised, \<open>Inr\<close> the value returned) and the
  frame as it stands when the call ends.
\<close>

subsection \<open>Data\<close>

type_synonym u256 = "256 word"
type_synonym byte = "8 word"
type_synonym address = "160 word"

text \<open>
  The exceptions a call can end with. \<open>StackUnderflowError\<close> and \<open>OutOfGasError\<close> are
  raised by the stack and the gas ledger; \<open>U256Overflow\<close> is the failure of an
  overflow-checked \<^verbatim>\<open>U256\<close> operation.
\<close>

datatype error = StackUnderflowError | OutOfGasError | U256Overflow

text \<open>\<^verbatim>\<open>Log(address=..., topics=..., data=...)\<close> of \<^verbatim>\<open>eth_types\<close>.\<close>

record Log =
  address :: address
  topics :: "byte list list"
  data :: "byte list"

text \<open>
  The fields of the frame \<^verbatim>\<open>Evm\<close> that \<^verbatim>\<open>log_n\<close> reads or writes. The head of
  \<open>stack\<close> is the top of the operand stack.
\<close>

record evm =
  stack :: "u256 list"
  memory :: "byte list"
  gas_left :: u256
  current :: address
  logs :: "Log list"

text \<open>
  The constants \<^verbatim>\<open>GAS_LOG\<close>, \<^verbatim>\<open>GAS_LOG_DATA\<close> and \<^verbatim>\<open>GAS_LOG_TOPIC\<close> are imported
  from \<^verbatim>\<open>..gas\<close>, which is not among the sources: they are parameters of the model.
  So is the fee that the memory-growth cost oracle asks when memory has to grow, a
  function of the current extent of memory, the start of the range and its size.
\<close>

record fees =
  GAS_LOG :: u256
  GAS_LOG_DATA :: u256
  GAS_LOG_TOPIC :: u256
  memory_growth_fee :: "nat \<Rightarrow> nat \<Rightarrow> nat \<Rightarrow> u256"

subsection \<open>Collaborators\<close>

text \<open>
  Modelled from the spec: \<^verbatim>\<open>pop\<close> of \<^verbatim>\<open>..stack\<close> is not among the sources.
  Section 6: "Stack.pop() -> word: fails with stack-underflow if empty; word is a
  fixed-width (256-bit) unsigned value."
\<close>

definition pop :: "u256 list \<Rightarrow> error + (u256 \<times> u256 list)" where
  "pop st = (case st of [] \<Rightarrow> Inl StackUnderflowError | w # rest \<Rightarrow> Inr (w, rest))"

text \<open>
  Modelled from the spec: \<^verbatim>\<open>subtract_gas\<close> of \<^verbatim>\<open>..gas\<close> is not among the sources.
  Section 6: "GasLedger.debit(amount) -> success|failure: failure iff amount >
  remaining; success deducts atomically."
\<close>

definition subtract_gas :: "u256 \<Rightarrow> u256 \<Rightarrow> error + u256" where
  "subtract_gas gas amount = (if gas < amount then Inl OutOfGasError else Inr (gas - amount))"

text \<open>
  Modelled from the spec: the arithmetic of \<^verbatim>\<open>U256\<close> (\<^verbatim>\<open>ethereum.base_types\<close>) is not
  among the sources. Section 4.1, step 3: "All four terms use
  saturating/overflow-checked arithmetic; an implementation must fail cleanly (not
  wrap) if the sum would exceed the representable range." The right operand of the
  product is given by its integer value: the source multiplies once by a \<^verbatim>\<open>U256\<close>
  (\<^verbatim>\<open>size\<close>) and once by a Python \<^verbatim>\<open>int\<close> (\<^verbatim>\<open>num_topics\<close>).
\<close>

definition u256_add :: "u256 \<Rightarrow> u256 \<Rightarrow> error + u256" where
  "u256_add a b = (if unat a + unat b < 2 ^ 256 then Inr (a + b) else Inl U256Overflow)"

definition u256_mul :: "u256 \<Rightarrow> nat \<Rightarrow> error + u256" where
  "u256_mul a n = (if unat a * n < 2 ^ 256 then Inr (a * word_of_nat n) else Inl U256Overflow)"

text \<open>
  A range of \<open>sz\<close> bytes from \<open>start\<close> lies within memory when all its addresses do; the
  empty range has none.
\<close>

definition within_memory :: "byte list \<Rightarrow> nat \<Rightarrow> u256 \<Rightarrow> bool" where
  "within_memory mem start sz \<longleftrightarrow> sz = 0 \<or> start + unat sz \<le> length mem"

text \<open>
  Modelled from the spec: \<^verbatim>\<open>calculate_gas_extend_memory\<close> of \<^verbatim>\<open>..gas\<close> is not among
  the sources. Section 6: "MemoryGrowthCostOracle.cost(currentSize, offset, size) ->
  fee: pure function of current memory extent and requested range"; section 4.1, step
  3: "zero if the region is already within current memory bounds". What it asks for a
  range that is not within memory is the parameter \<open>memory_growth_fee\<close>.
\<close>

definition calculate_gas_extend_memory :: "fees \<Rightarrow> byte list \<Rightarrow> nat \<Rightarrow> u256 \<Rightarrow> u256" where
  "calculate_gas_extend_memory F mem start_position sz =
     (if within_memory mem start_position sz then 0
      else memory_growth_fee F (length mem) start_position (unat sz))"

text \<open>
  Modelled from the spec: \<^verbatim>\<open>extend_memory\<close> of \<^verbatim>\<open>..memory\<close> is not among the
  sources. Section 6: "Memory.extend(offset: wide-unsigned, size: word) -> (): grows
  memory monotonically to cover the byte range; idempotent if already covered";
  section 4.1, step 5: "growth is a no-op if the region is already covered". New bytes
  are zero.
\<close>

definition extend_memory :: "byte list \<Rightarrow> nat \<Rightarrow> u256 \<Rightarrow> byte list" where
  "extend_memory mem start_position sz =
     (if within_memory mem start_position sz then mem
      else mem @ replicate (start_position + unat sz - length mem) 0)"

text \<open>
  Modelled from the spec: \<^verbatim>\<open>memory_read_bytes\<close> of \<^verbatim>\<open>..memory\<close> is not among the
  sources. Section 4.1, step 6: "Read exactly size bytes starting at offset from
  memory"; section 6: "requires the range already covered by a prior extend". It is
  the slice \<^verbatim>\<open>memory[start : start + size]\<close>.
\<close>

definition memory_read_bytes :: "byte list \<Rightarrow> nat \<Rightarrow> u256 \<Rightarrow> byte list" where
  "memory_read_bytes mem start_position sz = take (unat sz) (drop start_position mem)"

text \<open>
  Modelled from the spec: \<^verbatim>\<open>to_be_bytes32\<close> of \<^verbatim>\<open>U256\<close> is not among the sources.
  Section 4.1, step 8: "each reinterpreted as a fixed-width 32-byte topic value". The
  bytes are those of the word, most significant first.
\<close>

definition to_be_bytes32 :: "u256 \<Rightarrow> byte list" where
  "to_be_bytes32 w = map (\<lambda>i. ucast (drop_bit (8 * (31 - i)) w)) [0..<32]"

subsection \<open>The executor\<close>

text \<open>
  Lines 55 to 60: the fee, each operation checked, in Python's order of evaluation.
\<close>

definition gas_cost :: "fees \<Rightarrow> byte list \<Rightarrow> nat \<Rightarrow> u256 \<Rightarrow> nat \<Rightarrow> error + u256" where
  "gas_cost F mem memory_start_index sz num_topics =
     (case u256_mul (GAS_LOG_DATA F) (unat sz) of
        Inl e \<Rightarrow> Inl e
      | Inr data_fee \<Rightarrow>
     (case u256_add (GAS_LOG F) data_fee of
        Inl e \<Rightarrow> Inl e
      | Inr s1 \<Rightarrow>
     (case u256_mul (GAS_LOG_TOPIC F) num_topics of
        Inl e \<Rightarrow> Inl e
      | Inr topic_fee \<Rightarrow>
     (case u256_add s1 topic_fee of
        Inl e \<Rightarrow> Inl e
      | Inr s2 \<Rightarrow>
          u256_add s2 (calculate_gas_extend_memory F mem memory_start_index sz)))))"

text \<open>
  Lines 71 to 73: the loop \<^verbatim>\<open>for _ in range(num_topics)\<close>. A pop that raises ends
  the call; the entry under construction is a local of the call and is lost with it.
\<close>

fun pop_topics :: "nat \<Rightarrow> evm \<Rightarrow> Log \<Rightarrow> (error + Log) \<times> evm" where
  "pop_topics 0 evm log_entry = (Inr log_entry, evm)"
| "pop_topics (Suc k) evm log_entry =
     (case pop (stack evm) of
        Inl e \<Rightarrow> (Inl e, evm)
      | Inr (w, rest) \<Rightarrow>
          pop_topics k (evm\<lparr>stack := rest\<rparr>)
            (log_entry\<lparr>topics := topics log_entry @ [to_be_bytes32 w]\<rparr>))"

text \<open>Lines 31 to 75.\<close>

definition log_n :: "fees \<Rightarrow> nat \<Rightarrow> evm \<Rightarrow> (error + unit) \<times> evm" where
  "log_n F num_topics evm =
     (case pop (stack evm) of
        Inl e \<Rightarrow> (Inl e, evm)
      | Inr (w, rest1) \<Rightarrow>
     (let memory_start_index = unat w;
          evm1 = evm\<lparr>stack := rest1\<rparr>
      in case pop (stack evm1) of
        Inl e \<Rightarrow> (Inl e, evm1)
      | Inr (sz, rest2) \<Rightarrow>
     (let evm2 = evm1\<lparr>stack := rest2\<rparr>
      in case gas_cost F (memory evm2) memory_start_index sz num_topics of
        Inl e \<Rightarrow> (Inl e, evm2)
      | Inr cost \<Rightarrow>
     (case subtract_gas (gas_left evm2) cost of
        Inl e \<Rightarrow> (Inl e, evm2)
      | Inr g \<Rightarrow>
     (let evm3 = evm2\<lparr>gas_left := g\<rparr>;
          evm4 = evm3\<lparr>memory := extend_memory (memory evm3) memory_start_index sz\<rparr>;
          log_entry = \<lparr>address = current evm4, topics = [],
                       data = memory_read_bytes (memory evm4) memory_start_index sz\<rparr>
      in case pop_topics num_topics evm4 log_entry of
        (Inl e, evm5) \<Rightarrow> (Inl e, evm5)
      | (Inr entry, evm5) \<Rightarrow> (Inr (), evm5\<lparr>logs := logs evm5 @ [entry]\<rparr>))))))"

text \<open>Lines 78 to 82: \<^verbatim>\<open>partial(log_n, num_topics=k)\<close>.\<close>

definition log0 :: "fees \<Rightarrow> evm \<Rightarrow> (error + unit) \<times> evm" where
  "log0 F evm = log_n F 0 evm"

definition log1 :: "fees \<Rightarrow> evm \<Rightarrow> (error + unit) \<times> evm" where
  "log1 F evm = log_n F 1 evm"

definition log2 :: "fees \<Rightarrow> evm \<Rightarrow> (error + unit) \<times> evm" where
  "log2 F evm = log_n F 2 evm"

definition log3 :: "fees \<Rightarrow> evm \<Rightarrow> (error + unit) \<times> evm" where
  "log3 F evm = log_n F 3 evm"

definition log4 :: "fees \<Rightarrow> evm \<Rightarrow> (error + unit) \<times> evm" where
  "log4 F evm = log_n F 4 evm"


subsection \<open>The fee as the specification words it\<close>

text \<open>
  Section 4.1, step 3 gives the fee as the sum of four terms: a fixed base fee, a
  per-byte fee times the size, a per-topic fee times the topic count, and the fee of the
  memory-growth cost oracle. Here it is on the natural numbers, where a sum cannot
  overflow, to be compared with \<open>gas_cost\<close>.
\<close>

definition fee_total :: "fees \<Rightarrow> byte list \<Rightarrow> nat \<Rightarrow> u256 \<Rightarrow> nat \<Rightarrow> nat" where
  "fee_total F mem start sz n =
     unat (GAS_LOG F) + unat (GAS_LOG_DATA F) * unat sz + unat (GAS_LOG_TOPIC F) * n
       + unat (calculate_gas_extend_memory F mem start sz)"

text \<open>
  The one property of the oracle's fee for growth that a lemma below asks for: a
  longer range from the same start, over the same memory, does not cost less.
\<close>

definition growth_fee_monotone :: "fees \<Rightarrow> bool" where
  "growth_fee_monotone F \<longleftrightarrow>
     (\<forall>cur start s1 s2. s1 \<le> s2 \<longrightarrow>
        memory_growth_fee F cur start s1 \<le> memory_growth_fee F cur start s2)"

subsection \<open>The frames a call goes through\<close>

text \<open>
  To speak of the order of the effects of one call, \<open>log_n_states\<close> lists the frames
  that the call goes through: the frame it is given, then the frame after each
  statement of \<^verbatim>\<open>log_n\<close> that writes to it (the two pops of lines 52 and 53, the debit
  of line 61, the growth of line 63, each pop of line 72, the append of line 75). It
  follows \<open>log_n\<close> branch by branch and stops where the call raises.
\<close>

fun pop_topics_states :: "nat \<Rightarrow> evm \<Rightarrow> evm list" where
  "pop_topics_states 0 evm = []"
| "pop_topics_states (Suc k) evm =
     (case pop (stack evm) of
        Inl e \<Rightarrow> []
      | Inr (w, rest) \<Rightarrow> evm\<lparr>stack := rest\<rparr> # pop_topics_states k (evm\<lparr>stack := rest\<rparr>))"

definition log_n_states :: "fees \<Rightarrow> nat \<Rightarrow> evm \<Rightarrow> evm list" where
  "log_n_states F num_topics evm =
     evm #
     (case pop (stack evm) of
        Inl e \<Rightarrow> []
      | Inr (w, rest1) \<Rightarrow>
     (let memory_start_index = unat w;
          evm1 = evm\<lparr>stack := rest1\<rparr>
      in evm1 #
     (case pop (stack evm1) of
        Inl e \<Rightarrow> []
      | Inr (sz, rest2) \<Rightarrow>
     (let evm2 = evm1\<lparr>stack := rest2\<rparr>
      in evm2 #
     (case gas_cost F (memory evm2) memory_start_index sz num_topics of
        Inl e \<Rightarrow> []
      | Inr cost \<Rightarrow>
     (case subtract_gas (gas_left evm2) cost of
        Inl e \<Rightarrow> []
      | Inr g \<Rightarrow>
     (let evm3 = evm2\<lparr>gas_left := g\<rparr>;
          evm4 = evm3\<lparr>memory := extend_memory (memory evm3) memory_start_index sz\<rparr>;
          log_entry = \<lparr>address = current evm4, topics = [],
                       data = memory_read_bytes (memory evm4) memory_start_index sz\<rparr>
      in evm3 # evm4 # pop_topics_states num_topics evm4 @
     (case pop_topics num_topics evm4 log_entry of
        (Inl e, evm5) \<Rightarrow> []
      | (Inr entry, evm5) \<Rightarrow> [evm5\<lparr>logs := logs evm5 @ [entry]\<rparr>]))))))))"

text \<open>What a frame shows of the three effects: the gas left, the memory, the logs.\<close>

definition effects :: "evm \<Rightarrow> u256 \<times> byte list \<times> Log list" where
  "effects s = (gas_left s, memory s, logs s)"

subsection \<open>A fee schedule and frames to run the executor on\<close>

text \<open>
  Values for the parameters: 375 for a log, 8 for a byte, 375 for a topic, and 3 for
  each 32-byte word by which the end of the range passes the words already in memory,
  capped at the largest \<^verbatim>\<open>U256\<close>.
\<close>

definition example_fees :: fees where
  "example_fees =
     \<lparr>GAS_LOG = 375, GAS_LOG_DATA = 8, GAS_LOG_TOPIC = 375,
      memory_growth_fee = (\<lambda>cur start sz.
        word_of_nat (min (2 ^ 256 - 1) (3 * ((start + sz + 31) div 32 - cur div 32))))\<rparr>"

text \<open>
  Offset 0 and size 4 on top of two topics, the four bytes already in memory, and gas
  to spare.
\<close>

definition sample_frame :: evm where
  "sample_frame =
     \<lparr>stack = [0, 4, 10, 11], memory = [0xDE, 0xAD, 0xBE, 0xEF], gas_left = 2000,
      current = 5, logs = []\<rparr>"

text \<open>The same frame with too little gas.\<close>

definition poor_frame :: evm where
  "poor_frame =
     \<lparr>stack = [0, 4, 10, 11], memory = [0xDE, 0xAD, 0xBE, 0xEF], gas_left = 100,
      current = 5, logs = []\<rparr>"

text \<open>Offset 0 and size 32 on top of a single topic, and empty memory.\<close>

definition underflow_frame :: evm where
  "underflow_frame =
     \<lparr>stack = [0, 32, 7], memory = [], gas_left = 2000, current = 5, logs = []\<rparr>"

text \<open>The largest offset, \<open>2 ^ 256 - 1\<close>, with size 2, and all the gas a frame can hold.\<close>

definition far_frame :: evm where
  "far_frame = \<lparr>stack = [- 1, 2], memory = [], gas_left = - 1, current = 5, logs = []\<rparr>"

section \<open>Properties\<close>

subsection \<open>Checked arithmetic and the fee\<close>

lemma u256_add_unat: "u256_add a b = Inr c \<Longrightarrow> unat c = unat a + unat b"
  by (auto simp: u256_add_def unat_word_ariths split: if_splits)

lemma u256_add_defined: "unat a + unat b < 2 ^ 256 \<Longrightarrow> \<exists>c. u256_add a b = Inr c"
  by (simp add: u256_add_def)

lemma u256_mul_unat:
  assumes "u256_mul a n = Inr c"
  shows "unat c = unat a * n"
proof -
  from assms have lt: "unat a * n < 2 ^ 256" and c: "c = a * word_of_nat n"
    by (auto simp: u256_mul_def split: if_splits)
  have "a * word_of_nat n = (word_of_nat (unat a * n) :: u256)"
    by simp
  then have "unat c = (unat a * n) mod 2 ^ 256"
    using c by (simp only: unat_of_nat) simp
  then show ?thesis using lt by simp
qed

lemma u256_mul_defined: "unat a * n < 2 ^ 256 \<Longrightarrow> \<exists>c. u256_mul a n = Inr c"
  by (simp add: u256_mul_def)

lemma gas_cost_unat:
  assumes "gas_cost F mem start sz n = Inr c"
  shows "unat c = unat (GAS_LOG F) + unat (GAS_LOG_DATA F) * unat sz + unat (GAS_LOG_TOPIC F) * n
           + unat (calculate_gas_extend_memory F mem start sz)"
  using assms unfolding gas_cost_def
  by (auto split: sum.splits dest!: u256_add_unat u256_mul_unat)

lemma gas_cost_fee_total:
  "gas_cost F mem start sz n = Inr c \<Longrightarrow> unat c = fee_total F mem start sz n"
  by (simp add: fee_total_def gas_cost_unat)

text \<open>The fee is computed exactly when the sum of the four terms fits a \<^verbatim>\<open>U256\<close>.\<close>

lemma gas_cost_Inr_iff:
  "(\<exists>c. gas_cost F mem start sz n = Inr c) \<longleftrightarrow> fee_total F mem start sz n < 2 ^ 256"
proof
  assume "\<exists>c. gas_cost F mem start sz n = Inr c"
  then obtain c where "gas_cost F mem start sz n = Inr c" ..
  then have "unat c = fee_total F mem start sz n"
    by (rule gas_cost_fee_total)
  moreover have "unat c < 2 ^ 256" using unsigned_less [of c] by simp
  ultimately show "fee_total F mem start sz n < 2 ^ 256" by simp
next
  assume lt: "fee_total F mem start sz n < 2 ^ 256"
  then have "unat (GAS_LOG_DATA F) * unat sz < 2 ^ 256" by (simp add: fee_total_def)
  then obtain d where d: "u256_mul (GAS_LOG_DATA F) (unat sz) = Inr d"
    using u256_mul_defined by blast
  have ud: "unat d = unat (GAS_LOG_DATA F) * unat sz" using d by (rule u256_mul_unat)
  with lt have "unat (GAS_LOG F) + unat d < 2 ^ 256" by (simp add: fee_total_def)
  then obtain s1 where s1: "u256_add (GAS_LOG F) d = Inr s1"
    using u256_add_defined by blast
  have us1: "unat s1 = unat (GAS_LOG F) + unat d" using s1 by (rule u256_add_unat)
  from lt have "unat (GAS_LOG_TOPIC F) * n < 2 ^ 256" by (simp add: fee_total_def)
  then obtain t where t: "u256_mul (GAS_LOG_TOPIC F) n = Inr t"
    using u256_mul_defined by blast
  have ut: "unat t = unat (GAS_LOG_TOPIC F) * n" using t by (rule u256_mul_unat)
  with lt ud us1 have "unat s1 + unat t < 2 ^ 256" by (simp add: fee_total_def)
  then obtain s2 where s2: "u256_add s1 t = Inr s2" using u256_add_defined by blast
  have us2: "unat s2 = unat s1 + unat t" using s2 by (rule u256_add_unat)
  with lt ud us1 ut
  have "unat s2 + unat (calculate_gas_extend_memory F mem start sz) < 2 ^ 256"
    by (simp add: fee_total_def)
  then obtain c where "u256_add s2 (calculate_gas_extend_memory F mem start sz) = Inr c"
    using u256_add_defined by blast
  with d s1 t s2 show "\<exists>c. gas_cost F mem start sz n = Inr c"
    by (simp add: gas_cost_def)
qed

lemma gas_cost_le:
  assumes le: "fee_total F mem start sz n \<le> fee_total F mem' start' sz' n'"
    and c2: "gas_cost F mem' start' sz' n' = Inr c2"
  shows "\<exists>c1. gas_cost F mem start sz n = Inr c1 \<and> c1 \<le> c2"
proof -
  from c2 have "fee_total F mem' start' sz' n' < 2 ^ 256"
    using gas_cost_Inr_iff by blast
  with le have "fee_total F mem start sz n < 2 ^ 256" by simp
  then obtain c1 where c1: "gas_cost F mem start sz n = Inr c1"
    using gas_cost_Inr_iff by blast
  with le c2 have "c1 \<le> c2"
    by (simp add: word_le_nat_alt gas_cost_fee_total)
  with c1 show ?thesis by simp
qed

lemma oracle_mono_size:
  assumes "growth_fee_monotone F" and "sz1 \<le> sz2"
  shows "unat (calculate_gas_extend_memory F mem start sz1)
           \<le> unat (calculate_gas_extend_memory F mem start sz2)"
proof (cases "within_memory mem start sz1")
  case True
  then show ?thesis by (simp add: calculate_gas_extend_memory_def)
next
  case False
  from assms(2) have le: "unat sz1 \<le> unat sz2" by (simp add: word_le_nat_alt)
  from False have "sz1 \<noteq> 0" and "\<not> start + unat sz1 \<le> length mem"
    by (auto simp: within_memory_def)
  with le assms(2) have "\<not> within_memory mem start sz2"
    by (auto simp: within_memory_def)
  moreover from assms(1) le
  have "memory_growth_fee F (length mem) start (unat sz1)
          \<le> memory_growth_fee F (length mem) start (unat sz2)"
    by (simp add: growth_fee_monotone_def)
  ultimately show ?thesis using False
    by (simp add: calculate_gas_extend_memory_def word_le_nat_alt)
qed

lemma fee_total_mono_size:
  assumes "growth_fee_monotone F" and "sz1 \<le> sz2"
  shows "fee_total F mem start sz1 n \<le> fee_total F mem start sz2 n"
proof -
  from assms(2) have "unat sz1 \<le> unat sz2" by (simp add: word_le_nat_alt)
  then have "unat (GAS_LOG_DATA F) * unat sz1 \<le> unat (GAS_LOG_DATA F) * unat sz2"
    by (rule mult_le_mono2)
  with oracle_mono_size [OF assms, of mem start] show ?thesis
    unfolding fee_total_def by linarith
qed

lemma fee_total_mono_topics:
  "n1 \<le> n2 \<Longrightarrow> fee_total F mem start sz n1 \<le> fee_total F mem start sz n2"
  by (simp add: fee_total_def)

subsection \<open>Memory and topics\<close>

lemma length_read_extended:
  "length (memory_read_bytes (extend_memory mem start sz) start sz) = unat sz"
  by (auto simp: memory_read_bytes_def extend_memory_def within_memory_def)

lemma length_extend_memory:
  "sz \<noteq> 0 \<Longrightarrow> start + unat sz \<le> length (extend_memory mem start sz)"
  by (auto simp: extend_memory_def within_memory_def)

lemma length_to_be_bytes32: "length (to_be_bytes32 w) = 32"
  by (simp add: to_be_bytes32_def)

text \<open>
  The loop in closed form: with enough words it pops \<open>n\<close> of them and appends their
  images in the order of the pops; otherwise it pops all there are and raises.
\<close>

lemma pop_topics_eq:
  "pop_topics n evm entry =
     (if n \<le> length (stack evm)
      then (Inr (entry\<lparr>topics := topics entry @ map to_be_bytes32 (take n (stack evm))\<rparr>),
            evm\<lparr>stack := drop n (stack evm)\<rparr>)
      else (Inl StackUnderflowError, evm\<lparr>stack := []\<rparr>))"
proof (induction n arbitrary: evm entry)
  case 0
  then show ?case by simp
next
  case (Suc n)
  show ?case
  proof (cases "stack evm")
    case Nil
    then show ?thesis by (simp add: pop_def)
  next
    case (Cons w rest)
    then show ?thesis by (simp add: pop_def Suc)
  qed
qed

subsection \<open>The outcomes of a call\<close>

lemma log_n_empty:
  "stack evm = [] \<Longrightarrow> log_n F n evm = (Inl StackUnderflowError, evm)"
  by (simp add: log_n_def pop_def)

lemma log_n_single:
  "stack evm = [w] \<Longrightarrow> log_n F n evm = (Inl StackUnderflowError, evm\<lparr>stack := []\<rparr>)"
  by (simp add: log_n_def pop_def)

lemma log_n_short:
  assumes "length (stack evm) < 2"
  shows "log_n F n evm = (Inl StackUnderflowError, evm\<lparr>stack := []\<rparr>)"
proof (cases "stack evm")
  case Nil
  then show ?thesis by (simp add: log_n_empty)
next
  case (Cons w rest)
  with assms have "stack evm = [w]" by simp
  then show ?thesis by (rule log_n_single)
qed

lemma log_n_fee_error:
  "stack evm = w # sz # rest \<Longrightarrow> gas_cost F (memory evm) (unat w) sz n = Inl e \<Longrightarrow>
   log_n F n evm = (Inl e, evm\<lparr>stack := rest\<rparr>)"
  by (simp add: log_n_def pop_def)

lemma log_n_out_of_gas:
  "stack evm = w # sz # rest \<Longrightarrow> gas_cost F (memory evm) (unat w) sz n = Inr c \<Longrightarrow>
   gas_left evm < c \<Longrightarrow>
   log_n F n evm = (Inl OutOfGasError, evm\<lparr>stack := rest\<rparr>)"
  by (simp add: log_n_def pop_def subtract_gas_def)

lemma log_n_charged:
  assumes "stack evm = w # sz # rest" and "gas_cost F (memory evm) (unat w) sz n = Inr c"
    and "c \<le> gas_left evm"
  shows "log_n F n evm =
     (if n \<le> length rest
      then (Inr (),
            evm\<lparr>stack := drop n rest, gas_left := gas_left evm - c,
                memory := extend_memory (memory evm) (unat w) sz,
                logs := logs evm @
                  [\<lparr>address = current evm, topics = map to_be_bytes32 (take n rest),
                    data = memory_read_bytes (extend_memory (memory evm) (unat w) sz) (unat w) sz\<rparr>]\<rparr>)
      else (Inl StackUnderflowError,
            evm\<lparr>stack := [], gas_left := gas_left evm - c,
                memory := extend_memory (memory evm) (unat w) sz\<rparr>))"
  using assms
  by (simp add: log_n_def pop_def subtract_gas_def pop_topics_eq Let_def)

lemma two_words:
  assumes "\<not> length st < 2"
  obtains w sz rest where "st = w # sz # rest"
  using assms by (cases st; cases "tl st") auto

subsection \<open>The frames of a call\<close>

lemma effects_pop_topics_states:
  "map effects (pop_topics_states k s) = replicate (length (pop_topics_states k s)) (effects s)"
proof (induction k arbitrary: s)
  case 0
  then show ?case by simp
next
  case (Suc k)
  show ?case
  proof (cases "stack s")
    case Nil
    then show ?thesis by (simp add: pop_def)
  next
    case (Cons w rest)
    then show ?thesis using Suc [of "s\<lparr>stack := rest\<rparr>"]
      by (simp add: pop_def effects_def)
  qed
qed

lemma last_pop_topics_states:
  "last (s # pop_topics_states k s) = snd (pop_topics k s entry)"
proof (induction k arbitrary: s entry)
  case 0
  then show ?case by simp
next
  case (Suc k)
  show ?case
  proof (cases "stack s")
    case Nil
    then show ?thesis by (simp add: pop_def)
  next
    case (Cons w rest)
    then show ?thesis
      using Suc [of "s\<lparr>stack := rest\<rparr>" "entry\<lparr>topics := topics entry @ [to_be_bytes32 w]\<rparr>"]
      by (simp add: pop_def)
  qed
qed

lemma log_n_states_short:
  "length (stack evm) < 2 \<Longrightarrow>
   log_n_states F n evm = (if stack evm = [] then [evm] else [evm, evm\<lparr>stack := []\<rparr>])"
  by (cases "stack evm") (auto simp: log_n_states_def pop_def)

lemma log_n_states_not_charged:
  "stack evm = w # sz # rest \<Longrightarrow>
   gas_cost F (memory evm) (unat w) sz n = Inl e \<or>
   (\<exists>c. gas_cost F (memory evm) (unat w) sz n = Inr c \<and> gas_left evm < c) \<Longrightarrow>
   log_n_states F n evm = [evm, evm\<lparr>stack := sz # rest\<rparr>, evm\<lparr>stack := rest\<rparr>]"
  by (auto simp: log_n_states_def pop_def subtract_gas_def)

lemma log_n_states_charged:
  assumes "stack evm = w # sz # rest" and "gas_cost F (memory evm) (unat w) sz n = Inr c"
    and "c \<le> gas_left evm"
  shows "log_n_states F n evm =
     [evm, evm\<lparr>stack := sz # rest\<rparr>, evm\<lparr>stack := rest\<rparr>,
      evm\<lparr>stack := rest, gas_left := gas_left evm - c\<rparr>,
      evm\<lparr>stack := rest, gas_left := gas_left evm - c,
          memory := extend_memory (memory evm) (unat w) sz\<rparr>]
     @ pop_topics_states n
         (evm\<lparr>stack := rest, gas_left := gas_left evm - c,
              memory := extend_memory (memory evm) (unat w) sz\<rparr>)
     @ (if n \<le> length rest then [snd (log_n F n evm)] else [])"
  using assms
  by (simp add: log_n_states_def log_n_charged pop_def subtract_gas_def pop_topics_eq Let_def)

subsection \<open>The example schedule and frames\<close>

lemma unat_saturated:
  "unat (word_of_nat (min (2 ^ 256 - 1) x) :: u256) = min (2 ^ 256 - 1) x"
proof (rule of_nat_inverse [OF refl])
  have "min (2 ^ 256 - 1) x \<le> (2 ^ 256 - 1 :: nat)" by (rule min.cobounded1)
  then show "min (2 ^ 256 - 1) x < 2 ^ LENGTH(256)" by simp
qed

lemma unat_max_u256: "unat (- 1 :: u256) = 2 ^ 256 - 1"
  by (simp add: unsigned_minus_1_eq_mask mask_eq_exp_minus_1)

lemma example_fees_monotone: "growth_fee_monotone example_fees"
  unfolding growth_fee_monotone_def
proof (intro allI impI)
  fix cur start s1 s2 :: nat
  assume "s1 \<le> s2"
  then have "3 * ((start + s1 + 31) div 32 - cur div 32)
               \<le> 3 * ((start + s2 + 31) div 32 - cur div 32)"
    by (intro mult_le_mono2 diff_le_mono div_le_mono) simp
  then have "min (2 ^ 256 - 1) (3 * ((start + s1 + 31) div 32 - cur div 32))
               \<le> min (2 ^ 256 - 1) (3 * ((start + s2 + 31) div 32 - cur div 32))"
    by (rule min.mono [OF order_refl])
  then show "memory_growth_fee example_fees cur start s1
               \<le> memory_growth_fee example_fees cur start s2"
    by (simp only: example_fees_def fees.simps word_le_nat_alt unat_saturated)
qed

lemma gas_cost_in_memory: "gas_cost example_fees [0xDE, 0xAD, 0xBE, 0xEF] 0 4 2 = Inr 1157"
  by (simp add: gas_cost_def u256_mul_def u256_add_def example_fees_def
        calculate_gas_extend_memory_def within_memory_def)

lemma gas_cost_one_word: "gas_cost example_fees [] 0 32 2 = Inr 1384"
  by (simp add: gas_cost_def u256_mul_def u256_add_def example_fees_def
        calculate_gas_extend_memory_def within_memory_def)

lemma sample_stack: "stack sample_frame = 0 # 4 # [10, 11]"
  by (simp add: sample_frame_def)

lemma sample_gas_cost:
  "gas_cost example_fees (memory sample_frame) (unat (0 :: u256)) 4 2 = Inr 1157"
  by (simp add: sample_frame_def gas_cost_in_memory)

lemma sample_gas_left: "(1157 :: u256) \<le> gas_left sample_frame"
  by (simp add: sample_frame_def)

lemma sample_logs_grow:
  "logs (snd (log_n example_fees 2 sample_frame)) \<noteq> logs sample_frame"
  using log_n_charged [OF sample_stack sample_gas_cost sample_gas_left] by simp

lemma poor_stack: "stack poor_frame = 0 # 4 # [10, 11]"
  by (simp add: poor_frame_def)

lemma poor_gas_cost:
  "gas_cost example_fees (memory poor_frame) (unat (0 :: u256)) 4 2 = Inr 1157"
  by (simp add: poor_frame_def gas_cost_in_memory)

lemma underflow_stack: "stack underflow_frame = 0 # 32 # [7]"
  by (simp add: underflow_frame_def)

lemma underflow_gas_cost:
  "gas_cost example_fees (memory underflow_frame) (unat (0 :: u256)) 32 2 = Inr 1384"
  by (simp add: underflow_frame_def gas_cost_one_word)

lemma underflow_gas_left: "(1384 :: u256) \<le> gas_left underflow_frame"
  by (simp add: underflow_frame_def)

lemma far_stack: "stack far_frame = (- 1) # 2 # []"
  by (simp add: far_frame_def)

lemma far_fee_total:
  "fee_total example_fees (memory far_frame) (unat (- 1 :: u256)) 2 0 < 2 ^ 256"
proof -
  have "unat (calculate_gas_extend_memory example_fees [] (2 ^ 256 - 1) 2)
          = min (2 ^ 256 - 1) (3 * ((2 ^ 256 - 1 + 2 + 31) div 32))"
    by (simp only: calculate_gas_extend_memory_def within_memory_def example_fees_def
          fees.simps unat_saturated) simp
  also have "\<dots> \<le> 3 * ((2 ^ 256 - 1 + 2 + 31) div 32)" by (rule min.cobounded2)
  finally show ?thesis
    by (simp add: fee_total_def far_frame_def example_fees_def unat_max_u256)
qed

section \<open>The claims\<close>

subsection \<open>C1: a stack shorter than the operands\<close>

text \<open>
  C1 as stated: with fewer than \<open>2 + topicCount\<close> words on the stack the call fails with
  stack-underflow before anything is mutated. The source has no check ahead of the
  pops: it pops, charges and grows memory as it goes, and raises at the pop that finds
  the stack empty. On \<open>underflow_frame\<close>, three words for an arity of two, the call
  ends with stack-underflow after the three words are popped, 1384 gas is debited and
  memory has grown to 32 bytes.
\<close>

theorem log_n_short_stack_counterexample:
  "length (stack underflow_frame) < 2 + 2 \<and>
   log_n example_fees 2 underflow_frame =
     (Inl StackUnderflowError,
      \<lparr>stack = [], memory = replicate 32 0, gas_left = 616, current = 5, logs = []\<rparr>) \<and>
   log_n example_fees 2 underflow_frame \<noteq> (Inl StackUnderflowError, underflow_frame)"
proof -
  have run: "log_n example_fees 2 underflow_frame =
     (Inl StackUnderflowError,
      \<lparr>stack = [], memory = replicate 32 0, gas_left = 616, current = 5, logs = []\<rparr>)"
    using log_n_charged [OF underflow_stack underflow_gas_cost underflow_gas_left]
    by (simp add: underflow_frame_def extend_memory_def within_memory_def)
  then show ?thesis by (simp add: underflow_frame_def)
qed

text \<open>
  C1, amended: for every frame whose stack holds fewer than \<open>2 + topicCount\<close> words the
  call fails and the log sequence is unchanged. With fewer than 2 words it fails with
  stack-underflow, the words there were are popped, and gas and memory are untouched.
  With at least 2 words and a fee that the gas covers, the fee is debited and memory is
  grown, the remaining words are popped, and the call fails with stack-underflow.
\<close>

theorem log_n_short_stack:
  assumes "length (stack evm) < 2 + n"
  shows "(\<exists>e. fst (log_n F n evm) = Inl e) \<and> logs (snd (log_n F n evm)) = logs evm \<and>
         (length (stack evm) < 2 \<longrightarrow>
            log_n F n evm = (Inl StackUnderflowError, evm\<lparr>stack := []\<rparr>)) \<and>
         (\<forall>w sz rest c. stack evm = w # sz # rest \<and>
              gas_cost F (memory evm) (unat w) sz n = Inr c \<and> c \<le> gas_left evm \<longrightarrow>
            log_n F n evm =
              (Inl StackUnderflowError,
               evm\<lparr>stack := [], gas_left := gas_left evm - c,
                   memory := extend_memory (memory evm) (unat w) sz\<rparr>))"
proof (cases "length (stack evm) < 2")
  case True
  then show ?thesis by (auto simp: log_n_short)
next
  case False
  then obtain w sz rest where st: "stack evm = w # sz # rest"
    by (rule two_words)
  with assms have short: "\<not> n \<le> length rest" by simp
  show ?thesis
  proof (cases "gas_cost F (memory evm) (unat w) sz n")
    case (Inl e)
    with st show ?thesis by (simp add: log_n_fee_error)
  next
    case (Inr c)
    show ?thesis
    proof (cases "c \<le> gas_left evm")
      case True
      with st Inr short show ?thesis by (simp add: log_n_charged)
    next
      case False
      then have "gas_left evm < c" by simp
      with st Inr show ?thesis by (simp add: log_n_out_of_gas)
    qed
  qed
qed

theorem log_n_short_stack_witness:
  "length (stack underflow_frame) < 2 + 2 \<and>
   (\<exists>e. fst (log_n example_fees 2 underflow_frame) = Inl e) \<and>
   logs (snd (log_n example_fees 2 underflow_frame)) = logs underflow_frame \<and>
   log_n example_fees 2 underflow_frame =
     (Inl StackUnderflowError,
      underflow_frame\<lparr>stack := [], gas_left := gas_left underflow_frame - 1384,
        memory := extend_memory (memory underflow_frame) (unat (0 :: u256)) 32\<rparr>)"
proof -
  have h: "length (stack underflow_frame) < 2 + 2"
    by (simp add: underflow_frame_def)
  from log_n_short_stack [OF h, of example_fees]
    underflow_stack underflow_gas_cost underflow_gas_left h
  show ?thesis by blast
qed

subsection \<open>C2: one record, with the topic count and the payload length asked for\<close>

text \<open>
  C2: when the stack holds the offset, the size and at least \<open>topicCount\<close> more words,
  and the gas covers the fee, the call succeeds and the log sequence afterwards is the
  one before with exactly one record appended; that record has \<open>topicCount\<close> topics and
  a payload as long as the size operand.
\<close>

theorem log_n_appends_one_record:
  assumes "stack evm = w # sz # rest" and "n \<le> length rest"
    and "gas_cost F (memory evm) (unat w) sz n = Inr c" and "c \<le> gas_left evm"
  shows "\<exists>entry. fst (log_n F n evm) = Inr () \<and>
           logs (snd (log_n F n evm)) = logs evm @ [entry] \<and>
           length (topics entry) = n \<and> length (data entry) = unat sz"
  using assms by (simp add: log_n_charged length_read_extended)

theorem log_n_appends_one_record_witness:
  "\<exists>entry. fst (log_n example_fees 2 sample_frame) = Inr () \<and>
     logs (snd (log_n example_fees 2 sample_frame)) = logs sample_frame @ [entry] \<and>
     length (topics entry) = 2 \<and> length (data entry) = unat (4 :: u256)"
proof -
  have "(2 :: nat) \<le> length [10 :: u256, 11]" by simp
  then show ?thesis
    by (rule log_n_appends_one_record [OF sample_stack _ sample_gas_cost sample_gas_left])
qed

subsection \<open>C3: the fee is the sum of four terms\<close>

text \<open>
  C3: once offset and size are popped, the fee is the sum of the four terms of
  \<open>fee_total\<close>: the base fee, the byte fee times the size, the topic fee times the
  topic count, and the fee of the cost oracle for the range. A fee that the source
  computes has that value; the gas left after the call is the gas before less that sum
  when the gas covers it, and the gas before otherwise; and the oracle's term is zero
  for a range within memory.
\<close>

theorem log_n_fee_charged:
  assumes st: "stack evm = w # sz # rest"
  shows "unat (gas_left (snd (log_n F n evm))) =
           (if fee_total F (memory evm) (unat w) sz n \<le> unat (gas_left evm)
            then unat (gas_left evm) - fee_total F (memory evm) (unat w) sz n
            else unat (gas_left evm)) \<and>
         (\<forall>c. gas_cost F (memory evm) (unat w) sz n = Inr c \<longrightarrow>
            unat c = fee_total F (memory evm) (unat w) sz n) \<and>
         (within_memory (memory evm) (unat w) sz \<longrightarrow>
            calculate_gas_extend_memory F (memory evm) (unat w) sz = 0)"
proof -
  let ?total = "fee_total F (memory evm) (unat w) sz n"
  have gas: "unat (gas_left (snd (log_n F n evm))) =
           (if ?total \<le> unat (gas_left evm) then unat (gas_left evm) - ?total
            else unat (gas_left evm))"
  proof (cases "gas_cost F (memory evm) (unat w) sz n")
    case (Inl e)
    then have "\<not> ?total < 2 ^ 256"
      using gas_cost_Inr_iff [of F "memory evm" "unat w" sz n] by auto
    moreover have "unat (gas_left evm) < 2 ^ 256"
      using unsigned_less [of "gas_left evm"] by simp
    ultimately have "\<not> ?total \<le> unat (gas_left evm)" by simp
    with st Inl show ?thesis by (simp add: log_n_fee_error)
  next
    case (Inr c)
    then have uc: "unat c = ?total" by (rule gas_cost_fee_total)
    show ?thesis
    proof (cases "c \<le> gas_left evm")
      case True
      then have "unat (gas_left evm - c) = unat (gas_left evm) - unat c"
        by (simp add: unat_sub)
      moreover from True have "unat c \<le> unat (gas_left evm)"
        by (simp add: word_le_nat_alt)
      ultimately show ?thesis using st Inr True uc
        by (simp add: log_n_charged)
    next
      case False
      then have lt: "gas_left evm < c" by simp
      then have "\<not> unat c \<le> unat (gas_left evm)" by (simp add: word_less_nat_alt)
      with st Inr lt uc show ?thesis by (simp add: log_n_out_of_gas)
    qed
  qed
  then show ?thesis
    by (simp add: gas_cost_fee_total calculate_gas_extend_memory_def)
qed

theorem log_n_fee_charged_witness:
  "fee_total example_fees (memory sample_frame) (unat (0 :: u256)) 4 2 = 1157 \<and>
   unat (gas_left (snd (log_n example_fees 2 sample_frame))) = 2000 - 1157"
proof -
  have total: "fee_total example_fees (memory sample_frame) (unat (0 :: u256)) 4 2 = 1157"
    by (simp add: fee_total_def example_fees_def sample_frame_def
          calculate_gas_extend_memory_def within_memory_def)
  have "unat (gas_left sample_frame) = 2000" by (simp add: sample_frame_def)
  with log_n_fee_charged [OF sample_stack, of example_fees 2] total show ?thesis
    by simp
qed

subsection \<open>C4: out of gas\<close>

text \<open>
  C4: when the gas left is less than the fee computed, the call fails with out-of-gas
  and the frame afterwards is the frame before with the offset and the size popped and
  nothing else changed: the logs and the memory are as they were, no gas is taken, and
  no topic word is popped.
\<close>

theorem log_n_out_of_gas_atomic:
  assumes "stack evm = w # sz # rest"
    and "gas_cost F (memory evm) (unat w) sz n = Inr c" and "gas_left evm < c"
  shows "log_n F n evm = (Inl OutOfGasError, evm\<lparr>stack := rest\<rparr>) \<and>
         length (logs (snd (log_n F n evm))) = length (logs evm) \<and>
         memory (snd (log_n F n evm)) = memory evm \<and>
         gas_left (snd (log_n F n evm)) = gas_left evm \<and>
         stack (snd (log_n F n evm)) = drop 2 (stack evm)"
  using assms by (simp add: log_n_out_of_gas)

theorem log_n_out_of_gas_atomic_witness:
  "log_n example_fees 2 poor_frame = (Inl OutOfGasError, poor_frame\<lparr>stack := [10, 11]\<rparr>)"
proof -
  have lt: "gas_left poor_frame < 1157" by (simp add: poor_frame_def)
  from log_n_out_of_gas_atomic [OF poor_stack poor_gas_cost lt] show ?thesis by blast
qed

subsection \<open>C5: only whole records are committed\<close>

text \<open>
  C5: every call ends in one of two ways. Either it succeeds, and then the offset, the
  size and all \<open>topicCount\<close> topics were popped, the fee was debited, and the log
  sequence is the one before with one record of exactly \<open>topicCount\<close> topics appended;
  or it fails, and then the log sequence is the one before.
\<close>

theorem log_n_commits_whole_records:
  "(fst (log_n F n evm) = Inr () \<and>
      (\<exists>w sz rest c entry. stack evm = w # sz # rest \<and> n \<le> length rest \<and>
         gas_cost F (memory evm) (unat w) sz n = Inr c \<and> c \<le> gas_left evm \<and>
         gas_left (snd (log_n F n evm)) = gas_left evm - c \<and>
         stack (snd (log_n F n evm)) = drop n rest \<and>
         logs (snd (log_n F n evm)) = logs evm @ [entry] \<and>
         length (topics entry) = n))
   \<or> ((\<exists>e. fst (log_n F n evm) = Inl e) \<and> logs (snd (log_n F n evm)) = logs evm)"
proof (cases "length (stack evm) < 2")
  case True
  then show ?thesis by (simp add: log_n_short)
next
  case False
  then obtain w sz rest where st: "stack evm = w # sz # rest"
    by (rule two_words)
  show ?thesis
  proof (cases "gas_cost F (memory evm) (unat w) sz n")
    case (Inl e)
    with st show ?thesis by (simp add: log_n_fee_error)
  next
    case (Inr c)
    show ?thesis
    proof (cases "c \<le> gas_left evm")
      case True
      with st Inr show ?thesis by (simp add: log_n_charged)
    next
      case False
      then have "gas_left evm < c" by simp
      with st Inr show ?thesis by (simp add: log_n_out_of_gas)
    qed
  qed
qed

theorem log_n_commits_whole_records_witness:
  "fst (log_n example_fees 2 poor_frame) \<noteq> Inr () \<and>
   logs (snd (log_n example_fees 2 poor_frame)) = logs poor_frame"
proof -
  have "\<not> (1157 :: u256) \<le> gas_left poor_frame" by (simp add: poor_frame_def)
  with log_n_commits_whole_records [of example_fees 2 poor_frame] poor_stack poor_gas_cost
  show ?thesis by auto
qed

subsection \<open>C6: the range is computed without wrapping\<close>

text \<open>
  C6: the offset is widened on line 52 (\<open>unat w\<close>), and the end of the range is the sum
  of the widened offset and the size on the natural numbers, which does not wrap at
  \<open>2 ^ 256\<close>. For a size that is not zero, a call whose fee is debited leaves memory at
  least that long, and the term of the fee for growth is the oracle's answer for the
  widened offset, zero only when the true end of the range is within memory.
\<close>

theorem log_n_range_is_wide:
  assumes "stack evm = w # sz # rest" and "sz \<noteq> 0"
    and "gas_cost F (memory evm) (unat w) sz n = Inr c" and "c \<le> gas_left evm"
  shows "unat w + unat sz \<le> length (memory (snd (log_n F n evm))) \<and>
         gas_left (snd (log_n F n evm)) = gas_left evm - c \<and>
         unat c = unat (GAS_LOG F) + unat (GAS_LOG_DATA F) * unat sz + unat (GAS_LOG_TOPIC F) * n
                   + (if unat w + unat sz \<le> length (memory evm) then 0
                      else unat (memory_growth_fee F (length (memory evm)) (unat w) (unat sz)))"
  using assms
  by (simp add: log_n_charged length_extend_memory gas_cost_unat
        calculate_gas_extend_memory_def within_memory_def)

text \<open>
  On \<open>far_frame\<close> the offset is \<open>2 ^ 256 - 1\<close> and the size 2: a sum at word width would
  be 1, and memory after the call is at least \<open>2 ^ 256 + 1\<close> bytes long.
\<close>

theorem log_n_range_is_wide_witness:
  "unat (- 1 + 2 :: u256) = 1 \<and>
   2 ^ 256 + 1 \<le> length (memory (snd (log_n example_fees 0 far_frame)))"
proof -
  from far_fee_total obtain c
    where c: "gas_cost example_fees (memory far_frame) (unat (- 1 :: u256)) 2 0 = Inr c"
    using gas_cost_Inr_iff by blast
  have le: "c \<le> gas_left far_frame" by (simp add: far_frame_def)
  have nz: "(2 :: u256) \<noteq> 0" by simp
  have "unat (- 1 :: u256) + unat (2 :: u256) = 2 ^ 256 + 1"
    by (simp add: unat_max_u256)
  with log_n_range_is_wide [OF far_stack nz c le] show ?thesis by simp
qed

subsection \<open>C7: topics in the order of the pops\<close>

text \<open>
  C7: in a call that succeeds, the words under the offset and the size are the topics
  popped, \<open>rest ! i\<close> being the one popped at turn \<open>i\<close>; the record appended has
  \<open>topicCount\<close> topics, and its topic \<open>i\<close> is the 32-byte image of the word popped at
  turn \<open>i\<close>.
\<close>

theorem log_n_topics_in_pop_order:
  assumes "stack evm = w # sz # rest" and "n \<le> length rest"
    and "gas_cost F (memory evm) (unat w) sz n = Inr c" and "c \<le> gas_left evm"
  shows "\<exists>entry. fst (log_n F n evm) = Inr () \<and>
           logs (snd (log_n F n evm)) = logs evm @ [entry] \<and>
           length (topics entry) = n \<and>
           (\<forall>i<n. topics entry ! i = to_be_bytes32 (rest ! i) \<and> length (topics entry ! i) = 32)"
  using assms by (simp add: log_n_charged length_to_be_bytes32)

theorem log_n_topics_in_pop_order_witness:
  "\<exists>entry. fst (log_n example_fees 2 sample_frame) = Inr () \<and>
     logs (snd (log_n example_fees 2 sample_frame)) = logs sample_frame @ [entry] \<and>
     topics entry ! 0 = to_be_bytes32 10 \<and> topics entry ! 1 = to_be_bytes32 11"
proof -
  have n: "(2 :: nat) \<le> length [10 :: u256, 11]" by simp
  from log_n_topics_in_pop_order [OF sample_stack n sample_gas_cost sample_gas_left]
  obtain entry where e: "fst (log_n example_fees 2 sample_frame) = Inr ()"
      "logs (snd (log_n example_fees 2 sample_frame)) = logs sample_frame @ [entry]"
      "\<forall>i<2. topics entry ! i = to_be_bytes32 ([10, 11] ! i) \<and> length (topics entry ! i) = 32"
    by blast
  from e(3) have "topics entry ! 0 = to_be_bytes32 10" "topics entry ! 1 = to_be_bytes32 11"
    by force+
  with e(1,2) show ?thesis by blast
qed

subsection \<open>Monotonicity of the fee\<close>

text \<open>
  With offset, memory and size fixed, a fee computed for a topic count bounds the fee
  for every smaller topic count, which is computed too. This is read off lines 55 to
  60 alone.
\<close>

lemma gas_cost_monotone_topics:
  assumes "n1 \<le> n2" and "gas_cost F mem start sz n2 = Inr c2"
  shows "\<exists>c1. gas_cost F mem start sz n1 = Inr c1 \<and> c1 \<le> c2"
  using fee_total_mono_topics [OF assms(1)] assms(2) by (rule gas_cost_le)

text \<open>
  In the size, three of the four terms are monotone by lines 55 to 60; the fourth is
  the answer of \<^verbatim>\<open>calculate_gas_extend_memory\<close>, of which the sources and the
  specification give no formula. The fee is monotone in the size for every schedule
  whose fee for growth is, and the example schedule is one.
\<close>

lemma gas_cost_monotone_size:
  assumes "growth_fee_monotone F" and "sz1 \<le> sz2"
    and "gas_cost F mem start sz2 n = Inr c2"
  shows "\<exists>c1. gas_cost F mem start sz1 n = Inr c1 \<and> c1 \<le> c2"
  using fee_total_mono_size [OF assms(1,2)] assms(3) by (rule gas_cost_le)

lemma gas_cost_monotone_size_example:
  "\<exists>c1. gas_cost example_fees [] 0 4 2 = Inr c1 \<and> c1 \<le> 1384"
proof -
  have "(4 :: u256) \<le> 32" by simp
  with example_fees_monotone show ?thesis
    using gas_cost_one_word by (rule gas_cost_monotone_size)
qed

subsection \<open>C9: the fee, then memory, then the log\<close>

text \<open>
  C9: along the frames of a call, successful or not, the three effects come in one
  order. The frames fall into four consecutive blocks: first those with gas, memory and
  logs as given; then the one frame where the fee is debited and memory and logs are
  still as given; then those where memory is grown too; last the one frame where the
  record is appended. A later block is there only if the one before it is: memory is
  grown only in a call whose debit succeeded, and the record is appended only after
  memory was grown. The last frame of the list is the frame that \<open>log_n\<close> ends with.
\<close>

theorem log_n_effects_in_order:
  "\<exists>a b c d g m l.
     map effects (log_n_states F n evm) =
       replicate a (gas_left evm, memory evm, logs evm) @
       replicate b (g, memory evm, logs evm) @
       replicate c (g, m, logs evm) @
       replicate d (g, m, l) \<and>
     0 < a \<and> (c = 0 \<or> b = 1) \<and> (d = 0 \<or> 0 < c) \<and>
     (0 < b \<longrightarrow>
        (\<exists>w sz rest cost. stack evm = w # sz # rest \<and>
           gas_cost F (memory evm) (unat w) sz n = Inr cost \<and> cost \<le> gas_left evm \<and>
           g = gas_left evm - cost \<and> m = extend_memory (memory evm) (unat w) sz)) \<and>
     (0 < d \<longrightarrow> d = 1 \<and> fst (log_n F n evm) = Inr ()) \<and>
     last (log_n_states F n evm) = snd (log_n F n evm)"
proof -
  let ?P = "\<lambda>a b c d g m l.
     map effects (log_n_states F n evm) =
       replicate a (gas_left evm, memory evm, logs evm) @
       replicate b (g, memory evm, logs evm) @
       replicate c (g, m, logs evm) @
       replicate d (g, m, l) \<and>
     0 < a \<and> (c = 0 \<or> b = 1) \<and> (d = 0 \<or> 0 < c) \<and>
     (0 < b \<longrightarrow>
        (\<exists>w sz rest cost. stack evm = w # sz # rest \<and>
           gas_cost F (memory evm) (unat w) sz n = Inr cost \<and> cost \<le> gas_left evm \<and>
           g = gas_left evm - cost \<and> m = extend_memory (memory evm) (unat w) sz)) \<and>
     (0 < d \<longrightarrow> d = 1 \<and> fst (log_n F n evm) = Inr ()) \<and>
     last (log_n_states F n evm) = snd (log_n F n evm)"
  have ex: ?thesis if "?P a b c d g m l" for a b c d g m l
    using that by (intro exI [of _ a] exI [of _ b] exI [of _ c] exI [of _ d] exI [of _ g]
        exI [of _ m] exI [of _ l])
  have not_charged: "?P a 0 0 0 (gas_left evm) (memory evm) (logs evm)"
    if "map effects (log_n_states F n evm) = replicate a (effects evm)" and "0 < a"
      and "last (log_n_states F n evm) = snd (log_n F n evm)" for a
    using that by (simp add: effects_def)
  show ?thesis
  proof (cases "length (stack evm) < 2")
    case True
    show ?thesis
    proof (cases "stack evm = []")
      case True
      then have "?P 1 0 0 0 (gas_left evm) (memory evm) (logs evm)"
        by (intro not_charged) (simp_all add: log_n_states_short log_n_empty)
      then show ?thesis by (rule ex)
    next
      case False
      with True have "?P 2 0 0 0 (gas_left evm) (memory evm) (logs evm)"
        by (intro not_charged)
          (simp_all add: log_n_states_short log_n_short effects_def numeral_2_eq_2)
      then show ?thesis by (rule ex)
    qed
  next
    case False
    then obtain w sz rest where st: "stack evm = w # sz # rest"
      by (rule two_words)
    have stop: ?thesis
      if "log_n_states F n evm = [evm, evm\<lparr>stack := sz # rest\<rparr>, evm\<lparr>stack := rest\<rparr>]"
        and "snd (log_n F n evm) = evm\<lparr>stack := rest\<rparr>"
    proof -
      from that have "?P 3 0 0 0 (gas_left evm) (memory evm) (logs evm)"
        by (intro not_charged) (simp_all add: effects_def numeral_3_eq_3)
      then show ?thesis by (rule ex)
    qed
    show ?thesis
    proof (cases "gas_cost F (memory evm) (unat w) sz n")
      case (Inl e)
      with st show ?thesis
        by (intro stop) (simp_all add: log_n_states_not_charged log_n_fee_error)
    next
      case (Inr c)
      show ?thesis
      proof (cases "c \<le> gas_left evm")
        case False
        then have "gas_left evm < c" by simp
        with st Inr show ?thesis
          by (intro stop) (simp_all add: log_n_states_not_charged log_n_out_of_gas)
      next
        case True
        let ?g = "gas_left evm - c"
        let ?m = "extend_memory (memory evm) (unat w) sz"
        let ?evm4 = "evm\<lparr>stack := rest, gas_left := ?g, memory := ?m\<rparr>"
        let ?k = "length (pop_topics_states n ?evm4)"
        note states = log_n_states_charged [OF st Inr True]
        note final = log_n_charged [OF st Inr True]
        have pts: "map effects (pop_topics_states n ?evm4) = replicate ?k (?g, ?m, logs evm)"
          using effects_pop_topics_states [of n ?evm4] by (simp add: effects_def)
        show ?thesis
        proof (cases "n \<le> length rest")
          case True
          let ?l = "logs (snd (log_n F n evm))"
          have "map effects (log_n_states F n evm) =
                  replicate 3 (gas_left evm, memory evm, logs evm) @
                  replicate 1 (?g, memory evm, logs evm) @
                  replicate (Suc ?k) (?g, ?m, logs evm) @
                  replicate 1 (?g, ?m, ?l)"
            using True by (simp add: states pts) (simp add: effects_def final numeral_3_eq_3)
          moreover have "last (log_n_states F n evm) = snd (log_n F n evm)"
            using True by (simp add: states)
          moreover have "fst (log_n F n evm) = Inr ()"
            using True by (simp add: final)
          ultimately have "?P 3 1 (Suc ?k) 1 ?g ?m ?l"
            using st Inr \<open>c \<le> gas_left evm\<close> by simp
          then show ?thesis by (rule ex)
        next
          case False
          have "map effects (log_n_states F n evm) =
                  replicate 3 (gas_left evm, memory evm, logs evm) @
                  replicate 1 (?g, memory evm, logs evm) @
                  replicate (Suc ?k) (?g, ?m, logs evm) @
                  replicate 0 (?g, ?m, logs evm)"
            using False by (simp add: states pts) (simp add: effects_def numeral_3_eq_3)
          moreover have "last (log_n_states F n evm) = snd (log_n F n evm)"
          proof -
            have "last (log_n_states F n evm) = last (?evm4 # pop_topics_states n ?evm4)"
              using False by (simp add: states)
            also have "\<dots> = snd (pop_topics n ?evm4 \<lparr>address = 0, topics = [], data = []\<rparr>)"
              by (rule last_pop_topics_states)
            also have "\<dots> = snd (log_n F n evm)"
              using False by (simp add: final pop_topics_eq)
            finally show ?thesis .
          qed
          ultimately have "?P 3 1 (Suc ?k) 0 ?g ?m (logs evm)"
            using st Inr \<open>c \<le> gas_left evm\<close> by simp
          then show ?thesis by (rule ex)
        qed
      qed
    qed
  qed
qed

text \<open>
  On \<open>sample_frame\<close> all four blocks are there: the debit of 1157, the growth, and the
  append.
\<close>

theorem log_n_effects_in_order_witness:
  "\<exists>a b c d g m l.
     map effects (log_n_states example_fees 2 sample_frame) =
       replicate a (gas_left sample_frame, memory sample_frame, logs sample_frame) @
       replicate b (g, memory sample_frame, logs sample_frame) @
       replicate c (g, m, logs sample_frame) @
       replicate d (g, m, l) \<and>
     0 < a \<and> b = 1 \<and> 0 < c \<and> d = 1 \<and>
     g = gas_left sample_frame - 1157 \<and>
     m = extend_memory (memory sample_frame) (unat (0 :: u256)) 4 \<and>
     fst (log_n example_fees 2 sample_frame) = Inr ()"
proof -
  let ?ss = "log_n_states example_fees 2 sample_frame"
  let ?e0 = "(gas_left sample_frame, memory sample_frame, logs sample_frame)"
  from log_n_effects_in_order [of example_fees 2 sample_frame]
  obtain a b c d g m l where
    blocks: "map effects ?ss =
       replicate a ?e0 @ replicate b (g, memory sample_frame, logs sample_frame) @
       replicate c (g, m, logs sample_frame) @ replicate d (g, m, l)"
    and a: "0 < a" and cb: "c = 0 \<or> b = 1" and dc: "d = 0 \<or> 0 < c"
    and debit: "0 < b \<longrightarrow>
        (\<exists>w sz rest cost. stack sample_frame = w # sz # rest \<and>
           gas_cost example_fees (memory sample_frame) (unat w) sz 2 = Inr cost \<and>
           cost \<le> gas_left sample_frame \<and>
           g = gas_left sample_frame - cost \<and>
           m = extend_memory (memory sample_frame) (unat w) sz)"
    and append: "0 < d \<longrightarrow> d = 1 \<and> fst (log_n example_fees 2 sample_frame) = Inr ()"
    and final: "last ?ss = snd (log_n example_fees 2 sample_frame)"
    by (elim exE conjE) (rule that)
  from blocks a have ne: "?ss \<noteq> []" by auto
  have d: "0 < d"
  proof (rule ccontr)
    assume "\<not> 0 < d"
    then have "d = 0" by simp
    from ne have "effects (last ?ss) \<in> set (map effects ?ss)" by simp
    with blocks \<open>d = 0\<close> have "snd (snd (effects (last ?ss))) = logs sample_frame"
      by auto
    with final sample_logs_grow show False by (simp add: effects_def)
  qed
  with dc cb have c: "0 < c" and b: "b = 1" by auto
  from b debit sample_stack sample_gas_cost
  have "g = gas_left sample_frame - 1157 \<and>
        m = extend_memory (memory sample_frame) (unat (0 :: u256)) 4"
    by auto
  with blocks a b c d append show ?thesis by blast
qed

subsection \<open>C10: the five instructions are the executor at a fixed arity\<close>

text \<open>
  C10: for each \<open>k\<close> from 0 to 4, \<open>log_k\<close> on a frame gives the result and the frame that
  \<open>log_n\<close> gives on it with \<open>num_topics = k\<close>.
\<close>

theorem log_k_is_log_n:
  "log0 F evm = log_n F 0 evm \<and> log1 F evm = log_n F 1 evm \<and> log2 F evm = log_n F 2 evm \<and>
   log3 F evm = log_n F 3 evm \<and> log4 F evm = log_n F 4 evm"
  by (simp add: log0_def log1_def log2_def log3_def log4_def)

end
